theory Spec2Isabelle
  imports Main "HOL-Library.Word"
begin

unbundle bit_operations_syntax

section \<open>The buddy allocator of sim/mem\_pool.cc\<close>

text \<open>
  The pool keeps eleven free lists of \<^verbatim>\<open>struct buddy\<close> nodes, linked through raw
  \<^verbatim>\<open>next\<close>/\<^verbatim>\<open>prev\<close> pointers. The lists are modelled as the code has them: nodes in a
  store, addressed by pointers, so that what the code does with a stale or an
  unset pointer is part of the model.
\<close>

subsection \<open>Data\<close>

type_synonym Addr = "64 word"

text \<open>\<^verbatim>\<open>Counter\<close> is gem5's \<^verbatim>\<open>int64_t\<close>: the same 64 bits, read with \<open>sint\<close>.\<close>

type_synonym Counter = "64 word"

text \<open>
  A pointer to a buddy: the null pointer, the address of a node that \<^verbatim>\<open>malloc\<close>
  handed out, or \<open>Wild\<close>: a bit pattern that is neither (what a field holds that was
  never assigned and is not zero).
\<close>

datatype ptr = Null | Ptr nat | Wild

text \<open>
  Modelled from the spec: \<^verbatim>\<open>struct buddy\<close> is declared in sim/mem\_pool.hh, which is
  not among the sources. The spec's Block has a start offset and a size in pages and
  its two links; \<^verbatim>\<open>start\<close> and \<^verbatim>\<open>size\<close> are taken as \<^verbatim>\<open>Addr\<close>, the type insert\_buddy
  reads them into.
\<close>

record buddy =
  start :: Addr
  bsize :: Addr
  "next" :: ptr
  prev :: ptr

datatype error =
    AssertFail      \<comment> \<open>an \<^verbatim>\<open>assert\<close> or \<^verbatim>\<open>gem5_assert\<close> failed\<close>
  | NullDeref       \<comment> \<open>a null pointer was dereferenced\<close>
  | BadDeref        \<comment> \<open>a wild pointer or a pointer to a freed node was dereferenced\<close>
  | BadFree         \<comment> \<open>\<^verbatim>\<open>free\<close> of a wild pointer or of a freed node\<close>
  | OutOfBounds     \<comment> \<open>\<^verbatim>\<open>list_heads\<close> indexed above 10\<close>
  | IntOverflow     \<comment> \<open>signed overflow in \<^verbatim>\<open>int\<close> arithmetic\<close>

text \<open>
  The pool. \<open>heap\<close> holds the buddy nodes that are allocated right now and \<open>brk\<close> is
  the next address \<^verbatim>\<open>malloc\<close> hands out; an address is never handed out twice, so a
  pointer to a freed node stays recognisable. \<open>list_heads\<close> is the array of eleven
  list heads; an index above 10 is never read (see \<open>OutOfBounds\<close>).
\<close>

record MemPool =
  pageShift :: Addr
  startPageNum :: Counter
  freePageNum :: Counter
  m_totalPages :: Counter
  list_heads :: "nat \<Rightarrow> ptr"
  heap :: "nat \<Rightarrow> buddy option"
  brk :: nat

subsection \<open>Memory operations\<close>

definition deref :: "MemPool \<Rightarrow> ptr \<Rightarrow> error + buddy" where
  "deref s p =
     (case p of
        Null \<Rightarrow> Inl NullDeref
      | Wild \<Rightarrow> Inl BadDeref
      | Ptr a \<Rightarrow> (case heap s a of None \<Rightarrow> Inl BadDeref | Some n \<Rightarrow> Inr n))"

text \<open>
  \<^verbatim>\<open>malloc\<close> followed by the assignments that fill the node: \<open>n\<close> is the node as it
  stands after them, a field the code does not assign holding what the memory held.
\<close>

definition malloc :: "buddy \<Rightarrow> MemPool \<Rightarrow> ptr \<times> MemPool" where
  "malloc n s = (Ptr (brk s), s\<lparr>heap := (heap s)(brk s \<mapsto> n), brk := Suc (brk s)\<rparr>)"

definition free_buddy :: "ptr \<Rightarrow> MemPool \<Rightarrow> error + MemPool" where
  "free_buddy p s =
     (case p of
        Null \<Rightarrow> Inr s
      | Wild \<Rightarrow> Inl BadFree
      | Ptr a \<Rightarrow> (case heap s a of
                    None \<Rightarrow> Inl BadFree
                  | Some n \<Rightarrow> Inr (s\<lparr>heap := (heap s)(a := None)\<rparr>)))"

definition set_head :: "nat \<Rightarrow> ptr \<Rightarrow> MemPool \<Rightarrow> MemPool" where
  "set_head order p s = s\<lparr>list_heads := (list_heads s)(order := p)\<rparr>"

definition set_next :: "ptr \<Rightarrow> ptr \<Rightarrow> MemPool \<Rightarrow> error + MemPool" where
  "set_next p v s =
     (case p of
        Null \<Rightarrow> Inl NullDeref
      | Wild \<Rightarrow> Inl BadDeref
      | Ptr a \<Rightarrow> (case heap s a of
                    None \<Rightarrow> Inl BadDeref
                  | Some n \<Rightarrow> Inr (s\<lparr>heap := (heap s)(a \<mapsto> n\<lparr>next := v\<rparr>)\<rparr>)))"

definition set_prev :: "ptr \<Rightarrow> ptr \<Rightarrow> MemPool \<Rightarrow> error + MemPool" where
  "set_prev p v s =
     (case p of
        Null \<Rightarrow> Inl NullDeref
      | Wild \<Rightarrow> Inl BadDeref
      | Ptr a \<Rightarrow> (case heap s a of
                    None \<Rightarrow> Inl BadDeref
                  | Some n \<Rightarrow> Inr (s\<lparr>heap := (heap s)(a \<mapsto> n\<lparr>prev := v\<rparr>)\<rparr>)))"

subsection \<open>power2 and the accessors\<close>

text \<open>\<^verbatim>\<open>int power2(int n)\<close>: the loop multiplies \<^verbatim>\<open>ret\<close> by 2, \<open>n\<close> times.\<close>

primrec power2 :: "nat \<Rightarrow> int" where
  "power2 0 = 1"
| "power2 (Suc n) = power2 n * 2"

definition totalPages :: "MemPool \<Rightarrow> Counter" where
  "totalPages s = m_totalPages s"

definition allocatedPages :: "MemPool \<Rightarrow> Counter" where
  "allocatedPages s = freePageNum s - startPageNum s"

definition freePages :: "MemPool \<Rightarrow> Counter" where
  "freePages s = m_totalPages s - allocatedPages s"

subsection \<open>Construction\<close>

text \<open>
  The first loop of the constructor, \<^verbatim>\<open>for(int i = n_buddies_init; i > 0; i--)\<close>: the
  argument is \<open>i\<close>. \<^verbatim>\<open>(i - 1) * 1024\<close> is \<^verbatim>\<open>int\<close> arithmetic. The loop leaves
  \<^verbatim>\<open>prev\<close> unset; the second loop assigns it in every node of the list.
\<close>

fun init_buddies :: "nat \<Rightarrow> ptr \<Rightarrow> MemPool \<Rightarrow> error + (ptr \<times> MemPool)" where
  "init_buddies 0 next_buddy s = Inr (next_buddy, s)"
| "init_buddies (Suc j) next_buddy s =
     (if int j * 1024 > 2147483647 then Inl IntOverflow
      else
        (case malloc \<lparr>start = word_of_int (int j * 1024), bsize = 1024,
                      next = next_buddy, prev = Wild\<rparr> s of
           (b, s1) \<Rightarrow> init_buddies j b s1))"

text \<open>
  The second loop, \<^verbatim>\<open>for(p = list_heads[10]; p != NULL; p = p->next)\<close>. It follows
  pointers, so nothing bounds it on an arbitrary store: \<open>None\<close> is the loop that
  does not end.
\<close>

partial_function (option) set_prevs :: "ptr \<Rightarrow> ptr \<Rightarrow> MemPool \<Rightarrow> (error + MemPool) option" where
  "set_prevs prev_buddy p s =
     (if p = Null then Some (Inr s)
      else
        (case set_prev p prev_buddy s of
           Inl e \<Rightarrow> Some (Inl e)
         | Inr s1 \<Rightarrow>
             (case deref s1 p of
                Inl e \<Rightarrow> Some (Inl e)
              | Inr P \<Rightarrow> set_prevs p (next P) s1)))"

declare set_prevs.simps [code]

text \<open>
  \<^verbatim>\<open>MemPool::MemPool(page_shift, ptr, limit)\<close>. \<^verbatim>\<open>_totalPages > 0\<close> compares the signed
  counter; \<^verbatim>\<open>n_buddies_init\<close> is the quotient narrowed to \<^verbatim>\<open>int\<close>.
\<close>

definition MemPool_new :: "Addr \<Rightarrow> Addr \<Rightarrow> Addr \<Rightarrow> (error + MemPool) option" where
  "MemPool_new page_shift p limit =
     (let s0 = \<lparr>pageShift = page_shift,
                startPageNum = drop_bit (unat page_shift) p,
                freePageNum = drop_bit (unat page_shift) p,
                m_totalPages = drop_bit (unat page_shift) (limit - p),
                list_heads = (\<lambda>i. Null),
                heap = Map.empty,
                brk = 0\<rparr>
      in
        if \<not> 0 <s m_totalPages s0 then Some (Inl AssertFail)
        else
          (let n_buddies_init = sint (ucast (m_totalPages s0 div 1024) :: 32 word)
           in
             (case init_buddies (nat n_buddies_init) Null s0 of
                Inl e \<Rightarrow> Some (Inl e)
              | Inr (next_buddy, s1) \<Rightarrow>
                  set_prevs Null next_buddy (set_head 10 next_buddy s1))))"

subsection \<open>find\_buddy and allocate\<close>

function find_buddy :: "nat \<Rightarrow> MemPool \<Rightarrow> error + (ptr \<times> MemPool)" where
  "find_buddy order s =
     (if \<not> order \<le> 10 then Inl AssertFail
      else if list_heads s order \<noteq> Null then
        (let b = list_heads s order in
           (case deref s b of
              Inl e \<Rightarrow> Inl e
            | Inr B \<Rightarrow>
                (case (if next B \<noteq> Null then set_prev (next B) Null (set_head order (next B) s)
                       else Inr (set_head order (next B) s)) of
                   Inl e \<Rightarrow> Inl e
                 | Inr s1 \<Rightarrow>
                     (case set_next b Null s1 of
                        Inl e \<Rightarrow> Inl e
                      | Inr s2 \<Rightarrow>
                          (case set_prev b Null s2 of
                             Inl e \<Rightarrow> Inl e
                           | Inr s3 \<Rightarrow> Inr (b, s3))))))
      else
        (case find_buddy (order + 1) s of
           Inl e \<Rightarrow> Inl e
         | Inr (bigger, s1) \<Rightarrow>
             (case deref s1 bigger of
                Inl e \<Rightarrow> Inl e
              | Inr BG \<Rightarrow>
                  (case malloc \<lparr>start = start BG, bsize = bsize BG div 2,
                                next = Null, prev = Null\<rparr> s1 of
                     (smaller_1, s2) \<Rightarrow>
                       (case malloc \<lparr>start = start BG + bsize BG div 2, bsize = bsize BG div 2,
                                     next = Null, prev = Null\<rparr> s2 of
                          (smaller_2, s3) \<Rightarrow>
                            (case free_buddy bigger (set_head order smaller_2 s3) of
                               Inl e \<Rightarrow> Inl e
                             | Inr s4 \<Rightarrow> Inr (smaller_1, s4)))))))"
  by pat_completeness auto
termination
  by (relation "measure (\<lambda>(order, s). 11 - order)") auto

text \<open>The loop of allocate that looks for the order, from \<^verbatim>\<open>order\<close> on.\<close>

function alloc_order :: "Addr \<Rightarrow> nat \<Rightarrow> nat" where
  "alloc_order npages order =
     (if word_of_int (power2 order) < npages \<and> order \<le> 10
      then alloc_order npages (order + 1) else order)"
  by pat_completeness auto
termination
  by (relation "measure (\<lambda>(npages, order). 11 - order)") auto

definition allocate :: "Addr \<Rightarrow> MemPool \<Rightarrow> error + (Addr \<times> MemPool)" where
  "allocate npages s =
     (if \<not> npages \<ge> 1 then Inl AssertFail
      else if \<not> npages \<le> 1024 then Inl AssertFail
      else
        (case find_buddy (alloc_order npages 0) s of
           Inl e \<Rightarrow> Inl e
         | Inr (b, s1) \<Rightarrow>
             (case deref s1 b of
                Inl e \<Rightarrow> Inl e
              | Inr B \<Rightarrow>
                  (case free_buddy b s1 of
                     Inl e \<Rightarrow> Inl e
                   | Inr s2 \<Rightarrow> Inr (push_bit (unat (pageShift s1)) (start B), s2)))))"

subsection \<open>insert\_buddy and deallocate\<close>

text \<open>
  One iteration of the loop of insert\_buddy, at the node \<open>p\<close>. The iteration either
  sets \<^verbatim>\<open>inserted\<close>, which ends the loop (\<open>Inl\<close>, with the pool as it then is), or
  leaves the pool as it was and goes on to \<^verbatim>\<open>p->next\<close> (\<open>Inr\<close>). \<open>b\<close> goes before \<open>p\<close>,
  or behind \<open>p\<close> when \<open>p\<close> is the last node. Putting \<open>b\<close> before \<open>p\<close> assigns
  \<^verbatim>\<open>b->next\<close> and the predecessor's \<^verbatim>\<open>next\<close> (or the head) and nothing else:
  \<^verbatim>\<open>b->prev\<close> and \<^verbatim>\<open>p->prev\<close> stay as they were.
\<close>

definition insert_step :: "ptr \<Rightarrow> nat \<Rightarrow> ptr \<Rightarrow> MemPool \<Rightarrow> error + (MemPool + ptr)" where
  "insert_step b order p s =
     (case deref s p of
        Inl e \<Rightarrow> Inl e
      | Inr P \<Rightarrow>
          (case (if prev P = Null then Inr 0
                 else (case deref s (prev P) of Inl e \<Rightarrow> Inl e | Inr Q \<Rightarrow> Inr (start Q))) of
             Inl e \<Rightarrow> Inl e
           | Inr prev_start \<Rightarrow>
               (case deref s b of
                  Inl e \<Rightarrow> Inl e
                | Inr B \<Rightarrow>
                    if prev_start \<le> start B \<and> start P > start B then
                      (case set_next b p s of
                         Inl e \<Rightarrow> Inl e
                       | Inr s1 \<Rightarrow>
                           if prev P = Null then Inr (Inl (set_head order b s1))
                           else (case set_next (prev P) b s1 of
                                   Inl e \<Rightarrow> Inl e
                                 | Inr s2 \<Rightarrow> Inr (Inl s2)))
                    else if next P = Null then
                      (case set_next p b s of
                         Inl e \<Rightarrow> Inl e
                       | Inr s1 \<Rightarrow>
                           (case set_next b Null s1 of
                              Inl e \<Rightarrow> Inl e
                            | Inr s2 \<Rightarrow>
                                (case set_prev b p s2 of
                                   Inl e \<Rightarrow> Inl e
                                 | Inr s3 \<Rightarrow> Inr (Inl s3))))
                    else Inr (Inr (next P)))))"

text \<open>
  The loop, \<^verbatim>\<open>for(p = list_heads[order]; !inserted; p = p->next)\<close>, from \<open>p\<close> on. It
  follows pointers: \<open>None\<close> is the loop that does not end.
\<close>

partial_function (option) insert_loop ::
  "ptr \<Rightarrow> nat \<Rightarrow> ptr \<Rightarrow> MemPool \<Rightarrow> (error + MemPool) option" where
  "insert_loop b order p s =
     (case insert_step b order p s of
        Inl e \<Rightarrow> Some (Inl e)
      | Inr (Inl s') \<Rightarrow> Some (Inr s')
      | Inr (Inr p') \<Rightarrow> insert_loop b order p' s)"

declare insert_loop.simps [code]

function insert_buddy :: "ptr \<Rightarrow> nat \<Rightarrow> MemPool \<Rightarrow> (error + MemPool) option" where
  "insert_buddy b order s =
     (if order > 10 then Some (Inl OutOfBounds)
      else if list_heads s order = Null then Some (Inr (set_head order b s))
      else
        (case insert_loop b order (list_heads s order) s of
           None \<Rightarrow> None
         | Some (Inl e) \<Rightarrow> Some (Inl e)
         | Some (Inr s1) \<Rightarrow>
             if order = 10 then Some (Inr s1)
             else
               (case deref s1 b of
                  Inl e \<Rightarrow> Some (Inl e)
                | Inr B \<Rightarrow>
                    if start B mod word_of_int (power2 (order + 1)) = 0 then
                      (if next B = Null then Some (Inr s1)
                       else
                         (case deref s1 (next B) of
                            Inl e \<Rightarrow> Some (Inl e)
                          | Inr NX \<Rightarrow>
                              if start NX - start B = bsize B then
                                (case (if prev B = Null then Inr (set_head order (next NX) s1)
                                       else set_next (prev B) (next NX) s1) of
                                   Inl e \<Rightarrow> Some (Inl e)
                                 | Inr s2 \<Rightarrow>
                                     (case malloc \<lparr>start = start B, bsize = bsize B * 2,
                                                   next = Null, prev = Null\<rparr> s2 of
                                        (bigger, s3) \<Rightarrow>
                                          (case insert_buddy bigger (order + 1) s3 of
                                             None \<Rightarrow> None
                                           | Some (Inl e) \<Rightarrow> Some (Inl e)
                                           | Some (Inr s4) \<Rightarrow>
                                               Some (case deref s4 b of
                                                       Inl e \<Rightarrow> Inl e
                                                     | Inr B' \<Rightarrow>
                                                         (case free_buddy (next B') s4 of
                                                            Inl e \<Rightarrow> Inl e
                                                          | Inr s5 \<Rightarrow> free_buddy b s5)))))
                              else Some (Inr s1)))
                    else
                      (if prev B = Null then Some (Inr s1)
                       else
                         (case deref s1 (prev B) of
                            Inl e \<Rightarrow> Some (Inl e)
                          | Inr PV \<Rightarrow>
                              if start B - start PV = bsize B then
                                (case (if prev PV = Null then Inr (set_head order (next B) s1)
                                       else set_next (prev PV) (next B) s1) of
                                   Inl e \<Rightarrow> Some (Inl e)
                                 | Inr s2 \<Rightarrow>
                                     (case malloc \<lparr>start = start PV, bsize = bsize PV * 2,
                                                   next = Null, prev = Null\<rparr> s2 of
                                        (bigger, s3) \<Rightarrow>
                                          (case insert_buddy bigger (order + 1) s3 of
                                             None \<Rightarrow> None
                                           | Some (Inl e) \<Rightarrow> Some (Inl e)
                                           | Some (Inr s4) \<Rightarrow>
                                               Some (case deref s4 b of
                                                       Inl e \<Rightarrow> Inl e
                                                     | Inr B' \<Rightarrow>
                                                         (case free_buddy (prev B') s4 of
                                                            Inl e \<Rightarrow> Inl e
                                                          | Inr s5 \<Rightarrow> free_buddy b s5)))))
                              else Some (Inr s1))))))"
  by pat_completeness auto
termination
  by (relation "measure (\<lambda>(b, order, s). 10 - order)") auto

text \<open>
  \<^verbatim>\<open>MemPool::deallocate(start, npages)\<close>. The node comes from \<^verbatim>\<open>malloc\<close> and only
  \<^verbatim>\<open>size\<close> and \<^verbatim>\<open>start\<close> are assigned: \<open>junk_next\<close> and \<open>junk_prev\<close> are what the memory
  holds in the two link fields.
\<close>

definition deallocate :: "ptr \<Rightarrow> ptr \<Rightarrow> Addr \<Rightarrow> Addr \<Rightarrow> MemPool \<Rightarrow> (error + MemPool) option" where
  "deallocate junk_next junk_prev start_addr npages s =
     (if \<not> npages = 1 then Some (Inl AssertFail)
      else if \<not> push_bit (unat (pageShift s)) (drop_bit (unat (pageShift s)) start_addr) = start_addr
        then Some (Inl AssertFail)
      else
        (case malloc \<lparr>start = drop_bit (unat (pageShift s)) start_addr, bsize = 1,
                      next = junk_next, prev = junk_prev\<rparr> s of
           (b, s1) \<Rightarrow> insert_buddy b 0 s1))"

subsection \<open>Reading a free list\<close>

text \<open>
  The nodes of a list in list order, following \<^verbatim>\<open>next\<close> from a pointer for at most
  \<open>fuel\<close> steps and stopping at a pointer that is not the address of a node.
\<close>

fun walk :: "(nat \<Rightarrow> buddy option) \<Rightarrow> nat \<Rightarrow> ptr \<Rightarrow> buddy list" where
  "walk h 0 p = []"
| "walk h (Suc fuel) p =
     (case p of
        Ptr a \<Rightarrow> (case h a of None \<Rightarrow> [] | Some n \<Rightarrow> n # walk h fuel (next n))
      | _ \<Rightarrow> [])"

text \<open>
  The free blocks of one order, as (start, size) pairs. Every address of the store
  is below \<open>brk\<close>, so \<open>brk\<close> steps reach every node of the list.
\<close>

definition free_list :: "MemPool \<Rightarrow> nat \<Rightarrow> (nat \<times> nat) list" where
  "free_list s order =
     map (\<lambda>n. (unat (start n), unat (bsize n))) (walk (heap s) (brk s) (list_heads s order))"

subsection \<open>Call sequences\<close>

text \<open>
  A call of the pool's interface. A deallocate carries, besides its two arguments,
  what its freshly allocated node holds in \<^verbatim>\<open>next\<close> and \<^verbatim>\<open>prev\<close>.
\<close>

datatype call = Allocate Addr | Deallocate ptr ptr Addr Addr

text \<open>
  Running calls one after the other, stopping at the first that fails; the result
  has the addresses the allocate calls returned, in order, and the final pool.
\<close>

fun run_calls :: "call list \<Rightarrow> MemPool \<Rightarrow> (error + (Addr list \<times> MemPool)) option" where
  "run_calls [] s = Some (Inr ([], s))"
| "run_calls (Allocate npages # cs) s =
     (case allocate npages s of
        Inl e \<Rightarrow> Some (Inl e)
      | Inr (a, s1) \<Rightarrow>
          (case run_calls cs s1 of
             None \<Rightarrow> None
           | Some (Inl e) \<Rightarrow> Some (Inl e)
           | Some (Inr (as, s2)) \<Rightarrow> Some (Inr (a # as, s2))))"
| "run_calls (Deallocate junk_next junk_prev a npages # cs) s =
     (case deallocate junk_next junk_prev a npages s of
        None \<Rightarrow> None
      | Some (Inl e) \<Rightarrow> Some (Inl e)
      | Some (Inr s1) \<Rightarrow> run_calls cs s1)"

text \<open>Constructing a pool and running calls on it.\<close>

definition pool_run ::
  "Addr \<Rightarrow> Addr \<Rightarrow> Addr \<Rightarrow> call list \<Rightarrow> (error + (Addr list \<times> MemPool)) option" where
  "pool_run page_shift p limit cs =
     (case MemPool_new page_shift p limit of
        None \<Rightarrow> None
      | Some (Inl e) \<Rightarrow> Some (Inl e)
      | Some (Inr s) \<Rightarrow> run_calls cs s)"

text \<open>The eleven free lists of a pool, orders 0 to 10.\<close>

definition free_lists :: "MemPool \<Rightarrow> (nat \<times> nat) list list" where
  "free_lists s = map (free_list s) [0..<11]"

text \<open>What a run shows: the returned addresses and the free lists at the end.\<close>

definition observe ::
  "(error + (Addr list \<times> MemPool)) option \<Rightarrow> (error + (Addr list \<times> (nat \<times> nat) list list)) option" where
  "observe r = map_option (map_sum id (map_prod id free_lists)) r"

definition final :: "(error + (Addr list \<times> MemPool)) option \<Rightarrow> MemPool option" where
  "final r = (case r of Some (Inr (as, s)) \<Rightarrow> Some s | _ \<Rightarrow> None)"

text \<open>
  The pool as the constructor leaves it for 2048 pages of 4 KiB starting at page
  \<open>sp\<close> (\<open>two_block_pool_new\<close> below): two order-10 nodes.
\<close>

definition two_block_pool :: "Counter \<Rightarrow> MemPool" where
  "two_block_pool sp =
     \<lparr>pageShift = 12, startPageNum = sp, freePageNum = sp, m_totalPages = 2048,
      list_heads = (\<lambda>i. Null)(10 := Ptr 1),
      heap = [0 \<mapsto> \<lparr>start = 1024, bsize = 1024, next = Null, prev = Ptr 1\<rparr>,
              1 \<mapsto> \<lparr>start = 0, bsize = 1024, next = Ptr 0, prev = Null\<rparr>],
      brk = 2\<rparr>"

subsection \<open>Properties of a pool\<close>

text \<open>The four scalar members, the ones serialize writes.\<close>

definition scalars :: "MemPool \<Rightarrow> Addr \<times> Counter \<times> Counter \<times> Counter" where
  "scalars s = (pageShift s, startPageNum s, freePageNum s, m_totalPages s)"

text \<open>The pages in the free lists: the number of blocks of each order times \<open>2 ^ order\<close>.\<close>

definition free_pages :: "MemPool \<Rightarrow> nat" where
  "free_pages s = sum_list (map (\<lambda>k. length (free_list s k) * 2 ^ k) [0..<11])"

text \<open>The balance of claim C1: free pages plus the reported allocated pages.\<close>

definition page_balance :: "MemPool \<Rightarrow> bool" where
  "page_balance s \<longleftrightarrow> int (free_pages s) + sint (allocatedPages s) = sint (totalPages s)"

text \<open>
  The address the specification gives for allocate: the start page number of the
  pool plus the offset of the block that find\_buddy hands over, shifted.
\<close>

definition spec_allocate_address :: "Addr \<Rightarrow> MemPool \<Rightarrow> Addr option" where
  "spec_allocate_address npages s =
     (case find_buddy (alloc_order npages 0) s of
        Inl e \<Rightarrow> None
      | Inr (b, s1) \<Rightarrow>
          (case deref s1 b of
             Inl e \<Rightarrow> None
           | Inr B \<Rightarrow> Some (push_bit (unat (pageShift s)) (startPageNum s + start B))))"

section \<open>Evaluation and case analysis\<close>

declare find_buddy.simps [simp del] insert_buddy.simps [simp del] alloc_order.simps [simp del]

lemma power2_eq: "power2 n = 2 ^ n"
  by (induction n) simp_all

lemma init_buddies_numeral:
  "init_buddies (numeral k) nb s =
     (if int (pred_numeral k) * 1024 > 2147483647 then Inl IntOverflow
      else
        (case malloc \<lparr>start = word_of_int (int (pred_numeral k) * 1024), bsize = 1024,
                      next = nb, prev = Wild\<rparr> s of
           (b, s1) \<Rightarrow> init_buddies (pred_numeral k) b s1))"
  by (simp add: numeral_eq_Suc)

lemma walk_numeral:
  "walk h (numeral k) p =
     (case p of
        Ptr a \<Rightarrow> (case h a of None \<Rightarrow> [] | Some n \<Rightarrow> n # walk h (pred_numeral k) (next n))
      | _ \<Rightarrow> [])"
  by (simp add: numeral_eq_Suc)

lemma orders_eq: "[0..<11] = [0, 1, 2, 3, 4, 5, 6, 7, 8, 9, 10 :: nat]"
  by (simp add: upt_rec)

lemmas eval_simps = pool_run_def MemPool_new_def free_lists_def free_list_def observe_def
  final_def deref_def malloc_def free_buddy_def set_head_def set_next_def set_prev_def
  allocate_def deallocate_def insert_step_def power2_eq init_buddies_numeral walk_numeral orders_eq
  find_buddy.simps insert_buddy.simps insert_loop.simps set_prevs.simps alloc_order.simps
  word_sless_alt Let_def two_block_pool_def page_balance_def free_pages_def
  allocatedPages_def totalPages_def freePages_def spec_allocate_address_def

lemma two_block_pool_new:
  "MemPool_new 12 0 0x800000 = Some (Inr (two_block_pool 0))"
  "MemPool_new 12 0x5000 0x805000 = Some (Inr (two_block_pool 5))"
  by (simp_all add: eval_simps fun_eq_iff del: power2.simps)

lemma find_buddy_pop:
  assumes "find_buddy k s = Inr (b, s')" and "list_heads s k \<noteq> Null"
  obtains B s1 s2 where "k \<le> 10" "b = list_heads s k" "deref s b = Inr B"
    "if next B \<noteq> Null then set_prev (next B) Null (set_head k (next B) s) = Inr s1
     else s1 = set_head k (next B) s"
    "set_next b Null s1 = Inr s2" "set_prev b Null s2 = Inr s'"
  using assms
  by (subst (asm) find_buddy.simps) (auto simp: Let_def split: if_splits sum.splits)

lemma find_buddy_split:
  assumes "find_buddy k s = Inr (b, s')" and "list_heads s k = Null"
  obtains bigger s1 BG s2 smaller_2 s3 where "k \<le> 10"
    "find_buddy (Suc k) s = Inr (bigger, s1)" "deref s1 bigger = Inr BG"
    "malloc \<lparr>start = start BG, bsize = bsize BG div 2, next = Null, prev = Null\<rparr> s1 = (b, s2)"
    "malloc \<lparr>start = start BG + bsize BG div 2, bsize = bsize BG div 2,
             next = Null, prev = Null\<rparr> s2 = (smaller_2, s3)"
    "free_buddy bigger (set_head k smaller_2 s3) = Inr s'"
  using assms
  by (subst (asm) find_buddy.simps) (auto split: if_splits sum.splits prod.splits)

lemma insert_buddy_cases:
  assumes "insert_buddy b k s = Some (Inr s')"
  obtains
    (empty) "k \<le> 10" "list_heads s k = Null" "s' = set_head k b s"
  | (plain) "k \<le> 10" "list_heads s k \<noteq> Null"
      "insert_loop b k (list_heads s k) s = Some (Inr s')"
  | (left) s1 B NX s2 bigger s3 s4 B' s5 where "k < 10" "list_heads s k \<noteq> Null"
      "insert_loop b k (list_heads s k) s = Some (Inr s1)"
      "deref s1 b = Inr B" "start B mod 2 ^ Suc k = 0"
      "next B \<noteq> Null" "deref s1 (next B) = Inr NX" "start NX - start B = bsize B"
      "if prev B = Null then s2 = set_head k (next NX) s1
       else set_next (prev B) (next NX) s1 = Inr s2"
      "malloc \<lparr>start = start B, bsize = bsize B * 2, next = Null, prev = Null\<rparr> s2 = (bigger, s3)"
      "insert_buddy bigger (Suc k) s3 = Some (Inr s4)"
      "deref s4 b = Inr B'" "free_buddy (next B') s4 = Inr s5" "free_buddy b s5 = Inr s'"
  | (right) s1 B PV s2 bigger s3 s4 B' s5 where "k < 10" "list_heads s k \<noteq> Null"
      "insert_loop b k (list_heads s k) s = Some (Inr s1)"
      "deref s1 b = Inr B" "start B mod 2 ^ Suc k \<noteq> 0"
      "prev B \<noteq> Null" "deref s1 (prev B) = Inr PV" "start B - start PV = bsize B"
      "if prev PV = Null then s2 = set_head k (next B) s1
       else set_next (prev PV) (next B) s1 = Inr s2"
      "malloc \<lparr>start = start PV, bsize = bsize PV * 2, next = Null, prev = Null\<rparr> s2 = (bigger, s3)"
      "insert_buddy bigger (Suc k) s3 = Some (Inr s4)"
      "deref s4 b = Inr B'" "free_buddy (prev B') s4 = Inr s5" "free_buddy b s5 = Inr s'"
proof -
  note e = assms [unfolded insert_buddy.simps [of b k s]]
  from e show thesis
    apply (simp add: power2_eq del: power2.simps split: if_splits option.splits sum.splits prod.splits)
    using that apply (auto simp del: power2.simps)
    done
qed

section \<open>The scalar members are a frame of allocate and deallocate\<close>

lemma scalars_malloc: "malloc n s = (b, s') \<Longrightarrow> scalars s' = scalars s"
  by (auto simp: malloc_def scalars_def)

lemma scalars_free: "free_buddy p s = Inr s' \<Longrightarrow> scalars s' = scalars s"
  by (auto simp: free_buddy_def scalars_def split: ptr.splits option.splits)

lemma scalars_set_head: "scalars (set_head k p s) = scalars s"
  by (simp add: set_head_def scalars_def)

lemma scalars_set_next: "set_next p v s = Inr s' \<Longrightarrow> scalars s' = scalars s"
  by (auto simp: set_next_def scalars_def split: ptr.splits option.splits)

lemma scalars_set_prev: "set_prev p v s = Inr s' \<Longrightarrow> scalars s' = scalars s"
  by (auto simp: set_prev_def scalars_def split: ptr.splits option.splits)

lemma scalars_find_buddy: "find_buddy k s = Inr (b, s') \<Longrightarrow> scalars s' = scalars s"
proof (induction k s arbitrary: b s' rule: find_buddy.induct)
  case (1 order s)
  show ?case
  proof (cases "list_heads s order = Null")
    case False
    from "1.prems" False obtain B :: buddy and s1 s2 where
      s1: "if next B \<noteq> Null then set_prev (next B) Null (set_head order (next B) s) = Inr s1
           else s1 = set_head order (next B) s"
      and s2: "set_next b Null s1 = Inr s2" and s3: "set_prev b Null s2 = Inr s'"
      by (rule find_buddy_pop)
    from s1 have "scalars s1 = scalars s"
      by (auto split: if_splits dest: scalars_set_prev simp: scalars_set_head)
    moreover from s2 have "scalars s2 = scalars s1" by (rule scalars_set_next)
    moreover from s3 have "scalars s' = scalars s2" by (rule scalars_set_prev)
    ultimately show ?thesis by simp
  next
    case True
    from "1.prems" True obtain bigger s1 s2 smaller_2 s3 and BG :: buddy where le: "order \<le> 10"
      and rec: "find_buddy (Suc order) s = Inr (bigger, s1)"
      and m1: "malloc \<lparr>start = start BG, bsize = bsize BG div 2, next = Null, prev = Null\<rparr> s1 = (b, s2)"
      and m2: "malloc \<lparr>start = start BG + bsize BG div 2, bsize = bsize BG div 2,
             next = Null, prev = Null\<rparr> s2 = (smaller_2, s3)"
      and fr: "free_buddy bigger (set_head order smaller_2 s3) = Inr s'"
      by (rule find_buddy_split)
    from "1.IH" [of bigger s1] le True rec have "scalars s1 = scalars s" by simp
    with m1 m2 fr show ?thesis
      by (auto dest!: scalars_malloc scalars_free simp: scalars_set_head)
  qed
qed

lemma scalars_insert_step:
  "insert_step b k p s = Inr (Inl s') \<Longrightarrow> scalars s' = scalars s"
  by (auto simp: insert_step_def scalars_set_head split: sum.splits if_splits
           dest!: scalars_set_next scalars_set_prev)

lemma scalars_insert_loop_aux:
  assumes "insert_loop b k p s = Some r"
  shows "\<forall>s'. r = Inr s' \<longrightarrow> scalars s' = scalars s"
  by (rule insert_loop.raw_induct
        [where P = "\<lambda>b k p s r. \<forall>s'. r = Inr s' \<longrightarrow> scalars s' = scalars s", OF _ assms])
     (auto split: sum.splits dest: scalars_insert_step)

lemma scalars_insert_loop:
  "insert_loop b k p s = Some (Inr s') \<Longrightarrow> scalars s' = scalars s"
  using scalars_insert_loop_aux by blast

lemma scalars_insert_buddy: "insert_buddy b k s = Some (Inr s') \<Longrightarrow> scalars s' = scalars s"
proof (induction b k s arbitrary: s' rule: insert_buddy.induct)
  case (1 b order s)
  from "1.prems" show ?case
  proof (cases rule: insert_buddy_cases)
    case empty
    then show ?thesis by (simp add: scalars_set_head)
  next
    case plain
    then show ?thesis by (simp add: scalars_insert_loop)
  next
    case (left s1 B NX s2 bigger s3 s4 B' s5)
    have "scalars s4 = scalars s3"
      using left by (intro "1.IH"(1) [of _ s1 B NX s2 bigger s3 s4]) (auto simp: power2_eq)
    moreover have "scalars s1 = scalars s" using left by (simp add: scalars_insert_loop)
    moreover have "scalars s2 = scalars s1"
      using left(9) by (auto split: if_splits simp: scalars_set_head dest: scalars_set_next)
    moreover have "scalars s3 = scalars s2" using left by (simp add: scalars_malloc)
    moreover have "scalars s5 = scalars s4" using left by (simp add: scalars_free)
    moreover have "scalars s' = scalars s5" using left by (simp add: scalars_free)
    ultimately show ?thesis by simp
  next
    case (right s1 B PV s2 bigger s3 s4 B' s5)
    have "scalars s4 = scalars s3"
      using right by (intro "1.IH"(2) [of _ s1 B PV s2 bigger s3 s4]) (auto simp: power2_eq)
    moreover have "scalars s1 = scalars s" using right by (simp add: scalars_insert_loop)
    moreover have "scalars s2 = scalars s1"
      using right(9) by (auto split: if_splits simp: scalars_set_head dest: scalars_set_next)
    moreover have "scalars s3 = scalars s2" using right by (simp add: scalars_malloc)
    moreover have "scalars s5 = scalars s4" using right by (simp add: scalars_free)
    moreover have "scalars s' = scalars s5" using right by (simp add: scalars_free)
    ultimately show ?thesis by simp
  qed
qed

lemma scalars_allocate: "allocate npages s = Inr (a, s') \<Longrightarrow> scalars s' = scalars s"
  by (auto simp: allocate_def split: if_splits sum.splits prod.splits
           dest!: scalars_find_buddy scalars_free)

lemma scalars_deallocate:
  "deallocate jn jp a npages s = Some (Inr s') \<Longrightarrow> scalars s' = scalars s"
  by (auto simp: deallocate_def split: if_splits prod.splits
           dest!: scalars_insert_buddy scalars_malloc)

lemma scalars_run_calls:
  "run_calls cs s = Some (Inr (as, s')) \<Longrightarrow> scalars s' = scalars s"
proof (induction cs arbitrary: s as)
  case Nil
  then show ?case by simp
next
  case (Cons c cs)
  show ?case
  proof (cases c)
    case (Allocate npages)
    with Cons.prems obtain a s1 as' where "allocate npages s = Inr (a, s1)"
      and "run_calls cs s1 = Some (Inr (as', s'))"
      by (auto split: sum.splits option.splits prod.splits)
    then show ?thesis
      using Cons.IH [of s1 as'] by (simp add: scalars_allocate)
  next
    case (Deallocate jn jp a npages)
    with Cons.prems obtain s1 where "deallocate jn jp a npages s = Some (Inr s1)"
      and "run_calls cs s1 = Some (Inr (as, s'))"
      by (auto split: sum.splits option.splits)
    then show ?thesis
      using Cons.IH [of s1 as] by (simp add: scalars_deallocate)
  qed
qed

lemma observe_InrD: "observe r = Some (Inr x) \<Longrightarrow> \<exists>as s. r = Some (Inr (as, s))"
  by (cases r) (auto simp: observe_def map_sum_def split: sum.splits)

lemma run_example:
  "observe (run_calls [Allocate 1, Deallocate Null Null 0 1] (two_block_pool 0)) =
     Some (Inr ([0], [[], [], [], [], [], [], [], [], [], [], [(0, 1024), (1024, 1024)]]))"
  by (simp add: eval_simps del: power2.simps)

text \<open>
  Claim C8. Neither allocate nor deallocate writes \<^verbatim>\<open>freePageNum\<close>: after any sequence
  of calls that returns, the counter, the start page and the total are what they
  were, so \<^verbatim>\<open>allocatedPages()\<close> is still \<^verbatim>\<open>freePageNum - startPageNum\<close> of the pool
  before the calls and \<^verbatim>\<open>freePages()\<close> is \<^verbatim>\<open>totalPages() - allocatedPages()\<close>.
\<close>

theorem counters_frame:
  assumes "run_calls cs s = Some (Inr (as, s'))"
  shows "freePageNum s' = freePageNum s \<and> startPageNum s' = startPageNum s \<and>
         totalPages s' = totalPages s \<and>
         allocatedPages s' = freePageNum s - startPageNum s \<and>
         freePages s' = totalPages s - allocatedPages s'"
  using scalars_run_calls [OF assms]
  by (simp add: scalars_def allocatedPages_def freePages_def totalPages_def)

theorem counters_frame_witness:
  "\<exists>as s'. run_calls [Allocate 1, Deallocate Null Null 0 1] (two_block_pool 0) = Some (Inr (as, s')) \<and>
     freePageNum s' = 0 \<and> allocatedPages s' = 0 \<and> freePages s' = 2048"
proof -
  from run_example obtain as s' where
    r: "run_calls [Allocate 1, Deallocate Null Null 0 1] (two_block_pool 0) = Some (Inr (as, s'))"
    by (blast dest: observe_InrD)
  from counters_frame [OF r] r show ?thesis
    by (auto simp: two_block_pool_def totalPages_def simp del: run_calls.simps)
qed

section \<open>Failing preconditions and exhaustion\<close>

lemma find_buddy_above: "10 < order \<Longrightarrow> find_buddy order s = Inl AssertFail"
  by (simp add: find_buddy.simps)

lemma find_buddy_empty:
  "order \<le> 10 \<Longrightarrow> \<forall>k. order \<le> k \<and> k \<le> 10 \<longrightarrow> list_heads s k = Null
     \<Longrightarrow> find_buddy order s = Inl AssertFail"
proof (induction order s rule: find_buddy.induct)
  case (1 order s)
  show ?case
  proof (cases "order = 10")
    case True
    with "1.prems" show ?thesis
      by (subst find_buddy.simps) (simp add: find_buddy_above)
  next
    case False
    with "1.prems" have "find_buddy (order + 1) s = Inl AssertFail"
      by (intro "1.IH") auto
    with "1.prems" show ?thesis
      by (subst find_buddy.simps) simp
  qed
qed

text \<open>
  Claim C6. find\_buddy called at order 10 with an empty order-10 list, directly or
  by escalation from a lower order whose lists up to order 10 are all empty, ends in
  the failed \<^verbatim>\<open>assert(order <= 10)\<close> of the call at order 11: it returns no block and
  touches no list above order 10.
\<close>

theorem find_buddy_exhausted:
  assumes "order \<le> 10" and "\<forall>k. order \<le> k \<and> k \<le> 10 \<longrightarrow> list_heads s k = Null"
  shows "find_buddy order s = Inl AssertFail"
  using assms by (rule find_buddy_empty)

theorem find_buddy_exhausted_witness:
  "find_buddy 10 ((two_block_pool 0)\<lparr>list_heads := (\<lambda>i. Null)(3 := Ptr 0)\<rparr>) = Inl AssertFail \<and>
   find_buddy 4 ((two_block_pool 0)\<lparr>list_heads := (\<lambda>i. Null)(3 := Ptr 0)\<rparr>) = Inl AssertFail"
  using find_buddy_exhausted [of 10 "(two_block_pool 0)\<lparr>list_heads := (\<lambda>i. Null)(3 := Ptr 0)\<rparr>"]
    find_buddy_exhausted [of 4 "(two_block_pool 0)\<lparr>list_heads := (\<lambda>i. Null)(3 := Ptr 0)\<rparr>"]
  by simp

lemma aligned_iff: "push_bit n (drop_bit n (a :: 64 word)) = a \<longleftrightarrow> unat a mod 2 ^ n = 0"
proof -
  have "push_bit n (drop_bit n a) + take_bit n a = a" by (simp add: bits_ident)
  then have "push_bit n (drop_bit n a) = a \<longleftrightarrow> take_bit n a = 0"
    by (metis add.right_neutral add_left_cancel)
  also have "\<dots> \<longleftrightarrow> unat (take_bit n a) = 0" by (simp add: unat_eq_0)
  also have "\<dots> \<longleftrightarrow> unat a mod 2 ^ n = 0"
    by (metis unsigned_take_bit_eq take_bit_eq_mod)
  finally show ?thesis .
qed

text \<open>
  Claim C7. allocate fails its assertions for every page count outside 1..1024;
  deallocate fails its assertions for every page count other than 1, and for every
  address that is not a multiple of the page size.
\<close>

theorem precondition_checks:
  "(npages < 1 \<or> 1024 < npages \<longrightarrow> allocate npages s = Inl AssertFail) \<and>
   (npages \<noteq> 1 \<longrightarrow> deallocate jn jp a npages s = Some (Inl AssertFail)) \<and>
   (unat a mod 2 ^ unat (pageShift s) \<noteq> 0 \<longrightarrow> deallocate jn jp a 1 s = Some (Inl AssertFail))"
  by (auto simp: allocate_def deallocate_def aligned_iff not_le)

theorem precondition_checks_witness:
  "allocate 0 (two_block_pool 0) = Inl AssertFail \<and>
   allocate 1025 (two_block_pool 0) = Inl AssertFail \<and>
   deallocate Null Null 0x1000 2 (two_block_pool 0) = Some (Inl AssertFail) \<and>
   deallocate Null Null 0x1001 1 (two_block_pool 0) = Some (Inl AssertFail)"
  using precondition_checks [of 0 "two_block_pool 0" Null Null 0]
    precondition_checks [of 1025 "two_block_pool 0" Null Null 0]
    precondition_checks [of 2 "two_block_pool 0" Null Null "0x1000"]
    precondition_checks [of 1 "two_block_pool 0" Null Null "0x1001"]
  by (simp add: two_block_pool_def)

section \<open>The address allocate returns\<close>

text \<open>
  Claim C2 as stated fails: for the pool of 2048 pages that starts at page 5, the
  first allocate(1) returns address 0, and the start page number plus the block's
  offset, shifted, is 0x5000.
\<close>

theorem allocate_address_counterexample:
  "map_sum id fst (allocate 1 (two_block_pool 5)) = Inr 0 \<and>
   spec_allocate_address 1 (two_block_pool 5) = Some 0x5000"
  by (simp add: eval_simps del: power2.simps)

text \<open>
  Claim C2, amended. The value allocate returns is the start offset of the block
  that find\_buddy hands over for the order of the request, shifted left by the page
  shift: the offset relative to the pool, without the start page number.
\<close>

theorem allocate_address:
  assumes "map_sum id fst (allocate npages s) = Inr a"
  shows "\<exists>b s1 B. find_buddy (alloc_order npages 0) s = Inr (b, s1) \<and> deref s1 b = Inr B \<and>
           a = push_bit (unat (pageShift s)) (start B)"
  using assms
  by (auto simp: allocate_def scalars_def split: if_splits sum.splits prod.splits
           dest!: scalars_find_buddy)

theorem allocate_address_witness:
  "map_sum id fst (allocate 1 (two_block_pool 5)) = Inr 0 \<and>
   (\<exists>b s1 B. find_buddy (alloc_order 1 0) (two_block_pool 5) = Inr (b, s1) \<and>
      deref s1 b = Inr B \<and> (0 :: Addr) = push_bit (unat (pageShift (two_block_pool 5))) (start B))"
proof -
  have e: "map_sum id fst (allocate 1 (two_block_pool 5)) = Inr 0"
    by (simp add: eval_simps del: power2.simps)
  from allocate_address [OF e] e show ?thesis by simp
qed

section \<open>Runs of the allocator\<close>

lemma scenario_construction:
  "observe (pool_run 12 0 0x800000 []) =
     Some (Inr ([], [[], [], [], [], [], [], [], [], [], [], [(0, 1024), (1024, 1024)]]))"
  by (simp add: eval_simps del: power2.simps)

lemma scenario_allocate:
  "observe (pool_run 12 0 0x800000 [Allocate 1]) =
     Some (Inr ([0], [[(1, 1)], [(2, 2)], [(4, 4)], [(8, 8)], [(16, 16)], [(32, 32)],
                      [(64, 64)], [(128, 128)], [(256, 256)], [(512, 512)], [(1024, 1024)]]))"
  by (simp add: eval_simps del: power2.simps)

lemma scenario_deallocate_zeroed:
  "observe (pool_run 12 0 0x800000 [Allocate 1, Deallocate Null Null 0 1]) =
     Some (Inr ([0], [[], [], [], [], [], [], [], [], [], [], [(0, 1024), (1024, 1024)]]))"
  "observe (pool_run 12 0 0x800000 [Allocate 1, Deallocate Wild Null 0 1]) =
     Some (Inr ([0], [[], [], [], [], [], [], [], [], [], [], [(0, 1024), (1024, 1024)]]))"
  by (simp_all add: eval_simps del: power2.simps)

text \<open>
  Claim C3. Construction of the 2048-page pool and the first allocate(1) are as the
  claim says (\<open>scenario_construction\<close>, \<open>scenario_allocate\<close>). The deallocate(0x0, 1)
  that follows builds its node with \<^verbatim>\<open>malloc\<close> and never assigns \<^verbatim>\<open>prev\<close>; the merge
  branch of insert\_buddy tests \<^verbatim>\<open>b->prev == NULL\<close>. Where that memory is zero the merges
  cascade back to the two order-10 blocks (\<open>scenario_deallocate_zeroed\<close>); where it is
  not, the code writes through the pointer it finds there.
\<close>

theorem scenario_deallocate_garbage:
  "observe (pool_run 12 0 0x800000 [Allocate 1, Deallocate Null Wild 0 1]) = Some (Inl BadDeref)"
  by (simp add: eval_simps del: power2.simps)

text \<open>
  Claim C4. Pages 0, 1 and 2 are allocated from the 2048-page pool, then page 0 and
  page 1 are released, left buddy first, each node coming zeroed from \<^verbatim>\<open>malloc\<close>. The
  order-0 list holds page 3 at that time. Page 1 is put before page 3 by making it
  the head of the list, since \<^verbatim>\<open>prev\<close> of page 3 was left null when page 0 went in
  before it: page 0 is dropped from the list, and the pair is not merged.
\<close>

theorem release_pair_not_merged:
  "observe (pool_run 12 0 0x800000
      [Allocate 1, Allocate 1, Allocate 1, Deallocate Null Null 0 1, Deallocate Null Null 0x1000 1]) =
     Some (Inr ([0, 0x1000, 0x2000],
                [[(1, 1), (3, 1)], [], [(4, 4)], [(8, 8)], [(16, 16)], [(32, 32)],
                 [(64, 64)], [(128, 128)], [(256, 256)], [(512, 512)], [(1024, 1024)]]))"
  by (simp add: eval_simps del: power2.simps)

text \<open>
  Claim C5. Pages 0 to 5 are allocated from a 1024-page pool and pages 1, 5, 3, 2, 0
  are released in this order, each once, each node coming zeroed from \<^verbatim>\<open>malloc\<close>.
  The order-0 list ends as page 5 followed by page 0: not in ascending order.
\<close>

theorem free_list_out_of_order:
  "observe (pool_run 12 0 0x400000
      [Allocate 1, Allocate 1, Allocate 1, Allocate 1, Allocate 1, Allocate 1,
       Deallocate Null Null 0x1000 1, Deallocate Null Null 0x5000 1, Deallocate Null Null 0x3000 1,
       Deallocate Null Null 0x2000 1, Deallocate Null Null 0 1]) =
     Some (Inr ([0, 0x1000, 0x2000, 0x3000, 0x4000, 0x5000],
                [[(5, 1), (0, 1)], [(2, 2), (6, 2)], [], [(8, 8)], [(16, 16)], [(32, 32)],
                 [(64, 64)], [(128, 128)], [(256, 256)], [(512, 512)], []]))"
  by (simp add: eval_simps del: power2.simps)

section \<open>The page balance\<close>

text \<open>
  Claim C1 as stated fails: after the first allocate(1) on the 2048-page pool the
  free lists hold 2047 pages and \<^verbatim>\<open>allocatedPages()\<close> is 0.
\<close>

theorem page_balance_counterexample:
  "map_option page_balance (final (pool_run 12 0 0x800000 [Allocate 1])) = Some False"
  by (simp add: eval_simps del: power2.simps)

end
